theory Spec2Isabelle
  imports Main "HOL-Library.Word" "HOL-Library.Multiset"
begin

section \<open>Values of the source language\<close>

text \<open>
  A string of the program is a sequence of UTF-16 code units. \<open>js\<close> turns an ASCII
  literal into such a sequence.
\<close>

type_synonym jschar = "16 word"
type_synonym jsstring = "jschar list"

definition js :: "string \<Rightarrow> jsstring" where
  "js s = map (\<lambda>c. of_nat (of_char c)) s"

text \<open>
  The numbers that \<open>parseInt\<close> can return: \<open>NaN\<close>, or an integer. \<open>Num n\<close> carries the
  mathematical value of the digits (the program holds it as a double, which is the same
  value up to \<open>2^53\<close>; \<open>-0\<close> is \<open>Num 0\<close>).
\<close>

datatype number = NaN | Num int

text \<open>\<open>x || 0\<close> on an optional number: \<open>undefined\<close>, \<open>NaN\<close> and \<open>0\<close> are falsy.\<close>

fun orZero :: "number option \<Rightarrow> int" where
  "orZero None = 0"
| "orZero (Some NaN) = 0"
| "orZero (Some (Num n)) = n"

text \<open>The comparison \<open>a >= b\<close> of two numbers: false as soon as one of them is \<open>NaN\<close>.\<close>

fun geq :: "number \<Rightarrow> number \<Rightarrow> bool" where
  "geq (Num a) (Num b) = (b \<le> a)"
| "geq _ _ = False"


text \<open>The errors a call can be rejected with: \<open>new Error(message)\<close>, and the
  \<open>TypeError\<close> of reading a property of \<open>undefined\<close>.\<close>

datatype error = Error jsstring | TypeError

section \<open>Data model\<close>

text \<open>
  Latitudes, longitudes and distances are doubles; their arithmetic is not modelled, so
  their type is the parameter \<open>'r\<close> and \<open>calculateDistance\<close> is a parameter of the
  operations that call it.
\<close>

record 'r Coordinates =
  latitude :: 'r
  longitude :: 'r

text \<open>\<open>new Date(s)\<close> is kept as the string it was built from.\<close>

datatype Date = Date jsstring

record 'r MeetupEvent =
  name :: jsstring
  description :: jsstring
  datetime :: Date
  maxTickets :: "int option"
  eventType :: jsstring
  rsvpCount :: int
  eventLink :: jsstring
  location :: "'r Coordinates option"
  distance :: "'r option"
  matchScore :: "number option"

text \<open>A node of the feed's answer (\<open>edges[i].node\<close>); \<open>null\<close> is \<open>None\<close>.\<close>

record 'r Venue =
  lat :: 'r
  lon :: 'r

record 'r Node =
  title :: jsstring
  description_n :: jsstring
  dateTime :: jsstring
  maxTickets_n :: "int option"
  eventType_n :: jsstring
  rsvps_totalCount :: int
  eventUrl :: jsstring
  venue :: "'r Venue option"

record 'r GraphQLResponse =
  edges :: "'r Node list"

text \<open>\<open>choices[i].message.content\<close>, in order.\<close>

record OpenRouterResponse =
  choices :: "jsstring list"

text \<open>
  What \<open>fetch\<close> resolves to: the transport status and the body \<open>response.json()\<close>
  yields, taken at the type the program casts it to.
\<close>

record 'b response =
  ok :: bool
  statusText :: jsstring
  json :: 'b

text \<open>
  The prompt of \<open>generateMatchRating\<close> is a fixed text around five interpolated values;
  it is kept as these values.
\<close>

datatype 'r prompt = Prompt jsstring jsstring jsstring Date "'r option"

text \<open>
  The two services are outside the program. \<open>feed k\<close> is the answer to the \<open>k\<close>-th
  request sent to the event feed and \<open>completion k p\<close> the answer to the \<open>k\<close>-th request
  sent to the completion provider, carrying prompt \<open>p\<close>. The state counts the requests
  sent so far. The request to the feed (with \<open>numEvents\<close> and the origin) does not
  constrain the answer, so it is not part of the model.
\<close>

record world =
  feedRequests :: nat
  scoringRequests :: nat

section \<open>String operations\<close>

text \<open>\<open>s.split(sep)\<close> for a separator of one code unit: never empty.\<close>

fun split :: "jschar \<Rightarrow> jsstring \<Rightarrow> jsstring list" where
  "split sep [] = [[]]"
| "split sep (c # cs) =
     (if c = sep then [] # split sep cs
      else (case split sep cs of [] \<Rightarrow> [[c]] | p # ps \<Rightarrow> (c # p) # ps))"

text \<open>\<open>xs.pop()\<close>, the value it returns: the last element, \<open>undefined\<close> on an empty array.\<close>

definition pop :: "'a list \<Rightarrow> 'a option" where
  "pop xs = (if xs = [] then None else Some (last xs))"

text \<open>\<open>xs[0]\<close>: \<open>undefined\<close> on an empty array.\<close>

definition first :: "'a list \<Rightarrow> 'a option" where
  "first xs = (case xs of [] \<Rightarrow> None | x # _ \<Rightarrow> Some x)"

text \<open>White space and line terminators, which \<open>parseInt\<close> skips at the start.\<close>

definition isWhiteSpace :: "jschar \<Rightarrow> bool" where
  "isWhiteSpace c \<longleftrightarrow>
     c = 0x9 \<or> c = 0xA \<or> c = 0xB \<or> c = 0xC \<or> c = 0xD \<or> c = 0x20 \<or> c = 0xA0 \<or>
     c = 0x1680 \<or> (0x2000 \<le> c \<and> c \<le> 0x200A) \<or> c = 0x2028 \<or> c = 0x2029 \<or>
     c = 0x202F \<or> c = 0x205F \<or> c = 0x3000 \<or> c = 0xFEFF"

definition isDigit :: "jschar \<Rightarrow> bool" where
  "isDigit c \<longleftrightarrow> 0x30 \<le> c \<and> c \<le> 0x39"

definition digitValue :: "jschar \<Rightarrow> int" where
  "digitValue c = int (unat c) - 48"

definition decimalValue :: "jsstring \<Rightarrow> int" where
  "decimalValue ds = foldl (\<lambda>a c. 10 * a + digitValue c) 0 ds"

text \<open>
  \<open>parseInt(s, 10)\<close>: skip leading white space, read an optional sign, take the longest
  run of decimal digits; \<open>NaN\<close> when that run is empty.
\<close>

definition parseInt :: "jsstring \<Rightarrow> number" where
  "parseInt s =
     (let S = dropWhile isWhiteSpace s;
          sign = (if S \<noteq> [] \<and> hd S = 0x2D then - 1 else 1);
          S' = (if S \<noteq> [] \<and> (hd S = 0x2B \<or> hd S = 0x2D) then tl S else S);
          Z = takeWhile isDigit S'
      in if Z = [] then NaN else Num (sign * decimalValue Z))"

section \<open>The client\<close>

text \<open>
  \<open>openRouterRequest\<close>: one request; a transport failure throws, otherwise the content
  of the first choice is returned (reading it throws when there is no choice).
\<close>

definition openRouterRequest ::
  "(nat \<Rightarrow> 'p \<Rightarrow> OpenRouterResponse response) \<Rightarrow> 'p \<Rightarrow> world \<Rightarrow> (error + jsstring) \<times> world" where
  "openRouterRequest completion p w =
     (let response = completion (scoringRequests w) p;
          w' = w\<lparr>scoringRequests := Suc (scoringRequests w)\<rparr>
      in if \<not> ok response
         then (Inl (Error (js ''OpenRouter API error: '' @ statusText response)), w')
         else (case first (choices (json response)) of
                 None \<Rightarrow> (Inl TypeError, w')
               | Some content \<Rightarrow> (Inr content, w')))"

text \<open>
  The \<open>try\<close> block of \<open>generateMatchRating\<close>:
  \<open>match = response.split("{").pop()?.split("}")[0]\<close> and
  \<open>match ? parseInt(match, 10) : 0\<close>. None of these operations throws on a string, so
  the \<open>catch\<close> branch is never taken.
\<close>

definition parseMatchRating :: "jsstring \<Rightarrow> number" where
  "parseMatchRating reply =
     (let match = (case pop (split 0x7B reply) of
                     None \<Rightarrow> None
                   | Some t \<Rightarrow> first (split 0x7D t))
      in case match of
           None \<Rightarrow> Num 0
         | Some m \<Rightarrow> (if m \<noteq> [] then parseInt m else Num 0))"

definition promptOf :: "jsstring \<Rightarrow> 'r MeetupEvent \<Rightarrow> 'r prompt" where
  "promptOf interests event =
     Prompt interests (name event) (description event) (datetime event) (distance event)"

definition generateMatchRating ::
  "(nat \<Rightarrow> 'r prompt \<Rightarrow> OpenRouterResponse response) \<Rightarrow> 'r MeetupEvent \<Rightarrow> jsstring \<Rightarrow> world
     \<Rightarrow> (error + number) \<times> world" where
  "generateMatchRating completion event interests w =
     (case openRouterRequest completion (promptOf interests event) w of
        (Inl e, w') \<Rightarrow> (Inl e, w')
      | (Inr reply, w') \<Rightarrow> (Inr (parseMatchRating reply), w'))"

text \<open>
  \<open>Promise.all(events.map(async (event) => ({...event, matchScore: ...})))\<close>. Every
  request is sent, in the order of the events, before any answer is looked at; the
  result is rejected when one of them is, and is otherwise the events in the same order,
  each with its score. When several requests are rejected the program reports the one
  that settles first; the model takes the answers in the order of the requests.
\<close>

fun scoreEvents ::
  "(nat \<Rightarrow> 'r prompt \<Rightarrow> OpenRouterResponse response) \<Rightarrow> jsstring \<Rightarrow> 'r MeetupEvent list \<Rightarrow> world
     \<Rightarrow> (error + 'r MeetupEvent list) \<times> world" where
  "scoreEvents completion interests [] w = (Inr [], w)"
| "scoreEvents completion interests (event # rest) w =
     (case generateMatchRating completion event interests w of
        (r, w1) \<Rightarrow>
          (case scoreEvents completion interests rest w1 of
             (rs, w2) \<Rightarrow>
               (case r of
                  Inl e \<Rightarrow> (Inl e, w2)
                | Inr s \<Rightarrow>
                    (case rs of
                       Inl e \<Rightarrow> (Inl e, w2)
                     | Inr scored \<Rightarrow> (Inr (event\<lparr>matchScore := Some s\<rparr> # scored), w2)))))"

text \<open>
  \<open>events.sort(cmp)\<close> with \<open>cmp a b = (b.matchScore || 0) - (a.matchScore || 0)\<close>.
  The sort of the language is stable; it is modelled as insertion from the right, which
  puts an element before the first one it does not have to follow.
\<close>

definition compareScore :: "'r MeetupEvent \<Rightarrow> 'r MeetupEvent \<Rightarrow> int" where
  "compareScore a b = orZero (matchScore b) - orZero (matchScore a)"

fun insertBy :: "('a \<Rightarrow> 'a \<Rightarrow> int) \<Rightarrow> 'a \<Rightarrow> 'a list \<Rightarrow> 'a list" where
  "insertBy cmp x [] = [x]"
| "insertBy cmp x (y # ys) = (if cmp x y \<le> 0 then x # y # ys else y # insertBy cmp x ys)"

definition sortBy :: "('a \<Rightarrow> 'a \<Rightarrow> int) \<Rightarrow> 'a list \<Rightarrow> 'a list" where
  "sortBy cmp xs = foldr (insertBy cmp) xs []"

text \<open>\<open>a.matchScore >= b.matchScore\<close> on two events; an absent score compares as \<open>NaN\<close>.\<close>

fun geqScore :: "'r MeetupEvent \<Rightarrow> 'r MeetupEvent \<Rightarrow> bool" where
  "geqScore a b =
     (case (matchScore a, matchScore b) of
        (Some x, Some y) \<Rightarrow> geq x y
      | _ \<Rightarrow> False)"

text \<open>The callback that maps a node of the feed to an event.\<close>

definition toEvent ::
  "('r Coordinates \<Rightarrow> 'r Coordinates \<Rightarrow> 'r) \<Rightarrow> 'r Coordinates \<Rightarrow> 'r Node \<Rightarrow> 'r MeetupEvent" where
  "toEvent calculateDistance origin node =
     (let event = \<lparr> name = title node,
                    description = description_n node,
                    datetime = Date (dateTime node),
                    maxTickets = (case maxTickets_n node of
                                    None \<Rightarrow> None
                                  | Some n \<Rightarrow> if n = 0 then None else Some n),
                    eventType = eventType_n node,
                    rsvpCount = rsvps_totalCount node,
                    eventLink = eventUrl node,
                    location = None,
                    distance = None,
                    matchScore = None \<rparr>
      in case venue node of
           None \<Rightarrow> event
         | Some v \<Rightarrow>
             (let loc = \<lparr> latitude = lat v, longitude = lon v \<rparr>
              in event\<lparr>location := Some loc, distance := Some (calculateDistance origin loc)\<rparr>))"

text \<open>\<open>if (interests)\<close>: an absent and an empty string are falsy.\<close>

fun truthy :: "jsstring option \<Rightarrow> bool" where
  "truthy None = False"
| "truthy (Some s) = (s \<noteq> [])"

definition findNearbyEvents ::
  "('r Coordinates \<Rightarrow> 'r Coordinates \<Rightarrow> 'r) \<Rightarrow>
   (nat \<Rightarrow> 'r GraphQLResponse response) \<Rightarrow>
   (nat \<Rightarrow> 'r prompt \<Rightarrow> OpenRouterResponse response) \<Rightarrow>
   'r Coordinates \<Rightarrow> jsstring option \<Rightarrow> world \<Rightarrow> (error + 'r MeetupEvent list) \<times> world" where
  "findNearbyEvents calculateDistance feed completion origin interests w =
     (let response = feed (feedRequests w);
          w1 = w\<lparr>feedRequests := Suc (feedRequests w)\<rparr>
      in if \<not> ok response
         then (Inl (Error (js ''Meetup API error: '' @ statusText response)), w1)
         else
           (let events = map (toEvent calculateDistance origin) (edges (json response))
            in case interests of
                 None \<Rightarrow> (Inr events, w1)
               | Some s \<Rightarrow>
                   if truthy (Some s)
                   then (case scoreEvents completion s events w1 of
                           (Inl e, w2) \<Rightarrow> (Inl e, w2)
                         | (Inr scored, w2) \<Rightarrow> (Inr (sortBy compareScore scored), w2))
                   else (Inr events, w1)))"

section \<open>Numerals in replies\<close>




section \<open>Sample inputs\<close>

text \<open>
  Concrete inputs for the closed theorems below. Coordinates are integers here and
  \<open>flatDistance\<close> stands in for the distance calculator.
\<close>

definition flatDistance :: "int Coordinates \<Rightarrow> int Coordinates \<Rightarrow> int" where
  "flatDistance a b = \<bar>latitude a - latitude b\<bar> + \<bar>longitude a - longitude b\<bar>"

definition origin0 :: "int Coordinates" where
  "origin0 = \<lparr> latitude = 33, longitude = - 84 \<rparr>"

definition world0 :: world where
  "world0 = \<lparr> feedRequests = 0, scoringRequests = 0 \<rparr>"

definition node_jazz :: "int Node" where
  "node_jazz = \<lparr> title = js ''Jazz night'', description_n = js ''Live trio'',
                 dateTime = js ''2025-01-10T20:00'', maxTickets_n = Some 50,
                 eventType_n = js ''PHYSICAL'', rsvps_totalCount = 12,
                 eventUrl = js ''https://example.org/1'',
                 venue = Some \<lparr> lat = 34, lon = - 85 \<rparr> \<rparr>"

definition node_chess :: "int Node" where
  "node_chess = \<lparr> title = js ''Chess club'', description_n = js ''Weekly blitz'',
                  dateTime = js ''2025-01-11T18:00'', maxTickets_n = Some 0,
                  eventType_n = js ''PHYSICAL'', rsvps_totalCount = 3,
                  eventUrl = js ''https://example.org/2'',
                  venue = None \<rparr>"

definition feedOf :: "'r Node list \<Rightarrow> nat \<Rightarrow> 'r GraphQLResponse response" where
  "feedOf nodes k = \<lparr> ok = True, statusText = js ''OK'', json = \<lparr> edges = nodes \<rparr> \<rparr>"

definition feedDown :: "nat \<Rightarrow> int GraphQLResponse response" where
  "feedDown k = \<lparr> ok = False, statusText = js ''Internal Server Error'',
                  json = \<lparr> edges = [] \<rparr> \<rparr>"

definition okReply :: "jsstring \<Rightarrow> OpenRouterResponse response" where
  "okReply content = \<lparr> ok = True, statusText = js ''OK'', json = \<lparr> choices = [content] \<rparr> \<rparr>"

definition noChoiceReply :: "OpenRouterResponse response" where
  "noChoiceReply = \<lparr> ok = True, statusText = js ''OK'', json = \<lparr> choices = [] \<rparr> \<rparr>"

definition failedReply :: "jsstring \<Rightarrow> OpenRouterResponse response" where
  "failedReply st = \<lparr> ok = False, statusText = st, json = \<lparr> choices = [] \<rparr> \<rparr>"

text \<open>A provider that gives the listed answers to the first requests and is
  unavailable afterwards.\<close>

definition answers ::
  "OpenRouterResponse response list \<Rightarrow> nat \<Rightarrow> 'p \<Rightarrow> OpenRouterResponse response" where
  "answers rs k p = (if k < length rs then rs ! k else failedReply (js ''Service Unavailable''))"

section \<open>Properties of the string operations\<close>


lemma split_no_sep: "sep \<notin> set s \<Longrightarrow> split sep s = [s]"
  by (induction s) auto







lemma digitValue_nonneg: "isDigit c \<Longrightarrow> 0 \<le> digitValue c"
  by (simp add: isDigit_def digitValue_def word_le_def)

lemma foldl_digits_nonneg:
  "0 \<le> a \<Longrightarrow> \<forall>c\<in>set ds. isDigit c \<Longrightarrow> 0 \<le> foldl (\<lambda>a c. 10 * a + digitValue c) a ds"
  by (induction ds arbitrary: a) (auto simp: digitValue_nonneg)

lemma decimalValue_nonneg: "\<forall>c\<in>set ds. isDigit c \<Longrightarrow> 0 \<le> decimalValue ds"
  by (simp add: decimalValue_def foldl_digits_nonneg)











text \<open>A reply without braces that does not start like a number is read as \<open>NaN\<close>.\<close>

lemma parseMatchRating_prose:
  assumes "0x7B \<notin> set (c # cs)" and "0x7D \<notin> set (c # cs)"
    and "\<not> isWhiteSpace c" and "\<not> isDigit c" and "c \<noteq> 0x2B" and "c \<noteq> 0x2D"
  shows "parseMatchRating (c # cs) = NaN"
proof -
  have l: "split 0x7B (c # cs) = [c # cs]"
    using assms(1) by (rule split_no_sep)
  have r: "split 0x7D (c # cs) = [c # cs]"
    using assms(2) by (rule split_no_sep)
  have p: "parseInt (c # cs) = NaN"
    using assms(3-6) by (simp add: parseInt_def)
  show ?thesis
    by (simp add: parseMatchRating_def pop_def first_def l r p del: split.simps)
qed

section \<open>Properties of the sort\<close>

text \<open>
  With this comparator the sort is the stable sort by the key \<open>- (matchScore || 0)\<close>:
  the keys \<open>matchScore || 0\<close> descend, and events with the same score keep their order.
\<close>

lemma insertBy_compareScore:
  "insertBy compareScore x ys = insort_key (\<lambda>e. - orZero (matchScore e)) x ys"
  by (induction ys) (auto simp: compareScore_def)

lemma sortBy_compareScore:
  "sortBy compareScore xs = sort_key (\<lambda>e. - orZero (matchScore e)) xs"
  by (induction xs) (simp_all add: sortBy_def insertBy_compareScore)

lemma set_sortBy_compareScore: "set (sortBy compareScore xs) = set xs"
  by (simp add: sortBy_compareScore)

lemma mset_sortBy_compareScore: "mset (sortBy compareScore xs) = mset xs"
  by (simp add: sortBy_compareScore)

lemma sortBy_compareScore_descending:
  "sorted_wrt (\<lambda>a b. orZero (matchScore b) \<le> orZero (matchScore a)) (sortBy compareScore xs)"
proof -
  have "sorted (map (\<lambda>e. - orZero (matchScore e)) (sortBy compareScore xs))"
    by (simp add: sortBy_compareScore)
  then show ?thesis by (simp add: sorted_map)
qed

lemma sortBy_compareScore_stable:
  "filter (\<lambda>e. orZero (matchScore e) = k) (sortBy compareScore xs) =
   filter (\<lambda>e. orZero (matchScore e) = k) xs"
  using sort_key_stable [of "\<lambda>e. - orZero (matchScore e)" "- k" xs]
  by (simp add: sortBy_compareScore)

lemma sortBy_compareScore_stable_score:
  "filter (\<lambda>e. matchScore e = v) (sortBy compareScore xs) = filter (\<lambda>e. matchScore e = v) xs"
proof -
  have "filter (\<lambda>e. matchScore e = v) ys =
        filter (\<lambda>e. matchScore e = v) (filter (\<lambda>e. orZero (matchScore e) = orZero v) ys)"
    for ys :: "'a MeetupEvent list"
    by (induction ys) auto
  then show ?thesis
    by (metis sortBy_compareScore_stable)
qed

lemma geqScore_numbers:
  assumes "matchScore a = Some (Num m)" and "matchScore b = Some (Num n)"
  shows "geqScore a b = (orZero (matchScore b) \<le> orZero (matchScore a))"
  using assms by simp

lemma sortBy_compareScore_numbers:
  assumes "\<forall>e\<in>set xs. \<exists>n. matchScore e = Some (Num n)"
  shows "sorted_wrt geqScore (sortBy compareScore xs)"
proof -
  have "geqScore a b"
    if "a \<in> set (sortBy compareScore xs)" and "b \<in> set (sortBy compareScore xs)"
      and "orZero (matchScore b) \<le> orZero (matchScore a)" for a b
  proof -
    from that(1) assms obtain m where "matchScore a = Some (Num m)"
      unfolding set_sortBy_compareScore by blast
    moreover from that(2) assms obtain n where "matchScore b = Some (Num n)"
      unfolding set_sortBy_compareScore by blast
    ultimately show ?thesis using that(3) by simp
  qed
  with sortBy_compareScore_descending [of xs] show ?thesis
    by (rule sorted_wrt_mono_rel [rotated])
qed

section \<open>Properties of the scoring step\<close>

lemma generateMatchRating_world:
  "snd (generateMatchRating completion event interests w) =
   w\<lparr>scoringRequests := Suc (scoringRequests w)\<rparr>"
  by (simp add: generateMatchRating_def openRouterRequest_def Let_def split: option.splits)

lemma generateMatchRating_Inr:
  assumes "fst (generateMatchRating completion event interests w) = Inr s"
  shows "\<exists>content. ok (completion (scoringRequests w) (promptOf interests event)) \<and>
           first (choices (json (completion (scoringRequests w) (promptOf interests event)))) = Some content \<and>
           s = parseMatchRating content"
  using assms
  by (auto simp: generateMatchRating_def openRouterRequest_def Let_def split: option.splits if_splits)

lemma generateMatchRating_Inl:
  assumes "fst (generateMatchRating completion event interests w) = Inl err"
  shows "(\<not> ok (completion (scoringRequests w) (promptOf interests event)) \<and>
          err = Error (js ''OpenRouter API error: '' @
                  statusText (completion (scoringRequests w) (promptOf interests event)))) \<or>
         (ok (completion (scoringRequests w) (promptOf interests event)) \<and>
          choices (json (completion (scoringRequests w) (promptOf interests event))) = [] \<and>
          err = TypeError)"
  using assms
  by (auto simp: generateMatchRating_def openRouterRequest_def Let_def first_def
           split: option.splits if_splits list.splits)

lemma generateMatchRating_not_ok:
  assumes "\<not> ok (completion (scoringRequests w) (promptOf interests event))"
  shows "fst (generateMatchRating completion event interests w) =
         Inl (Error (js ''OpenRouter API error: '' @
                statusText (completion (scoringRequests w) (promptOf interests event))))"
  using assms by (simp add: generateMatchRating_def openRouterRequest_def Let_def)

lemma scoreEvents_Cons:
  "scoreEvents completion interests (event # rest) w =
     (case fst (generateMatchRating completion event interests w) of
        Inl e \<Rightarrow> Inl e
      | Inr s \<Rightarrow>
          (case fst (scoreEvents completion interests rest (w\<lparr>scoringRequests := Suc (scoringRequests w)\<rparr>)) of
             Inl e \<Rightarrow> Inl e
           | Inr scored \<Rightarrow> Inr (event\<lparr>matchScore := Some s\<rparr> # scored)),
      snd (scoreEvents completion interests rest (w\<lparr>scoringRequests := Suc (scoringRequests w)\<rparr>)))"
  using generateMatchRating_world [of completion event interests w]
  by (auto split: prod.splits sum.splits)

lemma scoreEvents_world:
  "snd (scoreEvents completion interests events w) =
   w\<lparr>scoringRequests := scoringRequests w + length events\<rparr>"
  by (induction events arbitrary: w) (simp_all add: scoreEvents_Cons del: scoreEvents.simps(2))

lemma scoreEvents_Inr:
  assumes "fst (scoreEvents completion interests events w) = Inr scored"
  shows "list_all2 (\<lambda>e' e. \<exists>k content.
            first (choices (json (completion k (promptOf interests e)))) = Some content \<and>
            e' = e\<lparr>matchScore := Some (parseMatchRating content)\<rparr>) scored events"
  using assms
proof (induction events arbitrary: w scored)
  case Nil
  then show ?case by simp
next
  case (Cons event rest)
  from Cons.prems obtain s scored' where
    s: "fst (generateMatchRating completion event interests w) = Inr s" and
    r: "fst (scoreEvents completion interests rest (w\<lparr>scoringRequests := Suc (scoringRequests w)\<rparr>)) = Inr scored'" and
    sc: "scored = event\<lparr>matchScore := Some s\<rparr> # scored'"
    by (auto simp: scoreEvents_Cons simp del: scoreEvents.simps(2) split: sum.splits)
  from generateMatchRating_Inr [OF s] Cons.IH [OF r] sc show ?case by auto
qed


lemma scoreEvents_set:
  assumes "fst (scoreEvents completion interests events w) = Inr scored" and "e' \<in> set scored"
  shows "\<exists>e\<in>set events. \<exists>k content.
           first (choices (json (completion k (promptOf interests e)))) = Some content \<and>
           e' = e\<lparr>matchScore := Some (parseMatchRating content)\<rparr>"
proof -
  from scoreEvents_Inr [OF assms(1)] assms(2) obtain i where
    i: "i < length scored" "e' = scored ! i" and len: "length scored = length events" and
    "\<exists>k content.
        first (choices (json (completion k (promptOf interests (events ! i))))) = Some content \<and>
        scored ! i = (events ! i)\<lparr>matchScore := Some (parseMatchRating content)\<rparr>"
    by (auto simp: list_all2_conv_all_nth in_set_conv_nth)
  then show ?thesis by (intro bexI [of _ "events ! i"]) auto
qed

lemma scoreEvents_fails:
  assumes "j < length events"
    and "\<not> ok (completion (scoringRequests w + j) (promptOf interests (events ! j)))"
  shows "\<exists>e. fst (scoreEvents completion interests events w) = Inl e"
  using assms
proof (induction events arbitrary: w j)
  case Nil
  then show ?case by simp
next
  case (Cons event rest)
  show ?case
  proof (cases j)
    case 0
    with Cons.prems generateMatchRating_not_ok [of completion w interests event]
    show ?thesis by (simp add: scoreEvents_Cons del: scoreEvents.simps(2))
  next
    case (Suc j')
    with Cons.prems Cons.IH [of j' "w\<lparr>scoringRequests := Suc (scoringRequests w)\<rparr>"]
    show ?thesis
      by (auto simp: scoreEvents_Cons simp del: scoreEvents.simps(2) split: sum.splits)
  qed
qed

lemma scoreEvents_Inl:
  assumes "fst (scoreEvents completion interests events w) = Inl err"
  shows "\<exists>j<length events.
           (\<not> ok (completion (scoringRequests w + j) (promptOf interests (events ! j))) \<and>
            err = Error (js ''OpenRouter API error: '' @
                    statusText (completion (scoringRequests w + j) (promptOf interests (events ! j))))) \<or>
           (ok (completion (scoringRequests w + j) (promptOf interests (events ! j))) \<and>
            choices (json (completion (scoringRequests w + j) (promptOf interests (events ! j)))) = [] \<and>
            err = TypeError)"
  using assms
proof (induction events arbitrary: w)
  case Nil
  then show ?case by simp
next
  case (Cons event rest)
  show ?case
  proof (cases "fst (generateMatchRating completion event interests w)")
    case (Inl e)
    with Cons.prems have "e = err"
      by (simp add: scoreEvents_Cons del: scoreEvents.simps(2))
    with generateMatchRating_Inl [OF Inl] show ?thesis
      by (intro exI [of _ 0]) simp
  next
    case (Inr s)
    with Cons.prems have
      "fst (scoreEvents completion interests rest (w\<lparr>scoringRequests := Suc (scoringRequests w)\<rparr>)) = Inl err"
      by (auto simp: scoreEvents_Cons simp del: scoreEvents.simps(2) split: sum.splits)
    from Cons.IH [OF this] obtain j where "j < length rest" and
      "(\<not> ok (completion (Suc (scoringRequests w) + j) (promptOf interests (rest ! j))) \<and>
            err = Error (js ''OpenRouter API error: '' @
                    statusText (completion (Suc (scoringRequests w) + j) (promptOf interests (rest ! j))))) \<or>
           (ok (completion (Suc (scoringRequests w) + j) (promptOf interests (rest ! j))) \<and>
            choices (json (completion (Suc (scoringRequests w) + j) (promptOf interests (rest ! j)))) = [] \<and>
            err = TypeError)"
      by auto
    then show ?thesis by (intro exI [of _ "Suc j"]) simp
  qed
qed

section \<open>Properties of the feed mapping and of the whole call\<close>

lemma toEvent_matchScore: "matchScore (toEvent calculateDistance origin node) = None"
  by (simp add: toEvent_def Let_def split: option.splits)

lemma toEvent_no_venue:
  "venue node = None \<Longrightarrow>
   location (toEvent calculateDistance origin node) = None \<and>
   distance (toEvent calculateDistance origin node) = None"
  by (simp add: toEvent_def Let_def)

lemma toEvent_venue:
  "venue node = Some v \<Longrightarrow>
   location (toEvent calculateDistance origin node) = Some \<lparr>latitude = lat v, longitude = lon v\<rparr> \<and>
   distance (toEvent calculateDistance origin node) =
     Some (calculateDistance origin \<lparr>latitude = lat v, longitude = lon v\<rparr>)"
  by (simp add: toEvent_def Let_def)

lemma findNearbyEvents_not_ok:
  "\<not> ok (feed (feedRequests w)) \<Longrightarrow>
   findNearbyEvents calculateDistance feed completion origin interests w =
     (Inl (Error (js ''Meetup API error: '' @ statusText (feed (feedRequests w)))),
      w\<lparr>feedRequests := Suc (feedRequests w)\<rparr>)"
  by (simp add: findNearbyEvents_def Let_def)

lemma findNearbyEvents_plain:
  "ok (feed (feedRequests w)) \<Longrightarrow> \<not> truthy interests \<Longrightarrow>
   findNearbyEvents calculateDistance feed completion origin interests w =
     (Inr (map (toEvent calculateDistance origin) (edges (json (feed (feedRequests w))))),
      w\<lparr>feedRequests := Suc (feedRequests w)\<rparr>)"
  by (cases interests) (simp_all add: findNearbyEvents_def Let_def)

lemma findNearbyEvents_scored:
  "ok (feed (feedRequests w)) \<Longrightarrow> s \<noteq> [] \<Longrightarrow>
   fst (findNearbyEvents calculateDistance feed completion origin (Some s) w) =
     (case fst (scoreEvents completion s
                  (map (toEvent calculateDistance origin) (edges (json (feed (feedRequests w)))))
                  (w\<lparr>feedRequests := Suc (feedRequests w)\<rparr>)) of
        Inl e \<Rightarrow> Inl e
      | Inr scored \<Rightarrow> Inr (sortBy compareScore scored))"
  by (simp add: findNearbyEvents_def Let_def split: prod.splits sum.splits)

lemma findNearbyEvents_Inr:
  assumes "fst (findNearbyEvents calculateDistance feed completion origin interests w) = Inr evs"
  obtains (plain) "\<not> truthy interests"
      "evs = map (toEvent calculateDistance origin) (edges (json (feed (feedRequests w))))"
  | (ranked) s scored where "interests = Some s" "s \<noteq> []"
      "fst (scoreEvents completion s
             (map (toEvent calculateDistance origin) (edges (json (feed (feedRequests w)))))
             (w\<lparr>feedRequests := Suc (feedRequests w)\<rparr>)) = Inr scored"
      "evs = sortBy compareScore scored"
proof -
  have okf: "ok (feed (feedRequests w))"
    using assms by (auto simp: findNearbyEvents_def Let_def split: if_splits)
  show ?thesis
  proof (cases "truthy interests")
    case False
    with okf assms plain show ?thesis by (simp add: findNearbyEvents_plain)
  next
    case True
    then obtain s where s: "interests = Some s" "s \<noteq> []" by (cases interests) auto
    with okf assms ranked show ?thesis
      by (auto simp: findNearbyEvents_scored split: sum.splits)
  qed
qed

section \<open>The claims\<close>

subsection \<open>C1: range of the score\<close>




subsection \<open>C2: replies without a bracketed integer\<close>

text \<open>
  C2. A reply without any brace is handed to \<open>parseInt\<close> as a whole; for the prose reply
  \<open>Not a good match.\<close> the scorer returns \<open>NaN\<close>, not \<open>0\<close>. No error is raised.
  (\<open>parseMatchRating_prose\<close> gives the same for every such reply.)
\<close>

theorem prose_reply_scores_NaN:
  "fst (generateMatchRating (answers [okReply (js ''Not a good match.'')])
          (toEvent flatDistance origin0 node_jazz) (js ''jazz'') world0) = Inr NaN"
  by code_simp

subsection \<open>C3: order of the ranked result\<close>

text \<open>
  C3. With the replies \<open>{5}\<close> and \<open>Not a match.\<close> the result holds the scores \<open>5\<close> and
  \<open>NaN\<close> in this order, and \<open>5 >= NaN\<close> is false: the adjacent pair is not ordered by
  \<open>matchScore\<close>. (When every score is a number the result is ordered, by
  \<open>sortBy_compareScore_numbers\<close>, and equal scores always keep their order, by
  \<open>sortBy_compareScore_stable_score\<close>.)
\<close>

theorem NaN_score_breaks_order:
  "fst (findNearbyEvents flatDistance (feedOf [node_jazz, node_chess])
          (answers [okReply (js ''{5}''), okReply (js ''Not a match.'')]) origin0
          (Some (js ''jazz'')) world0) =
     Inr [(toEvent flatDistance origin0 node_jazz)\<lparr>matchScore := Some (Num 5)\<rparr>,
          (toEvent flatDistance origin0 node_chess)\<lparr>matchScore := Some NaN\<rparr>] \<and>
   \<not> geqScore ((toEvent flatDistance origin0 node_jazz)\<lparr>matchScore := Some (Num 5)\<rparr>)
               ((toEvent flatDistance origin0 node_chess)\<lparr>matchScore := Some NaN\<rparr>)"
  by code_simp

subsection \<open>C4: presence of the score\<close>

text \<open>
  C4. In every result of \<open>findNearbyEvents\<close>, each returned event has \<open>matchScore\<close> set
  if and only if the query carried a non-empty interests string; with absent or empty
  interests no returned event has it.
\<close>

theorem matchScore_iff_interests:
  assumes "fst (findNearbyEvents calculateDistance feed completion origin interests w) = Inr evs"
  shows "\<forall>e\<in>set evs. (matchScore e \<noteq> None) = truthy interests"
  using assms
proof (cases rule: findNearbyEvents_Inr)
  case plain
  then show ?thesis by (auto simp: toEvent_matchScore)
next
  case (ranked s scored)
  then show ?thesis
    using scoreEvents_set [OF ranked(3)] by (fastforce simp: set_sortBy_compareScore)
qed

theorem matchScore_iff_interests_witness:
  "fst (findNearbyEvents flatDistance (feedOf [node_jazz])
          (answers [okReply (js ''Good fit: {74}'')]) origin0 (Some (js ''jazz'')) world0) =
     Inr [(toEvent flatDistance origin0 node_jazz)\<lparr>matchScore := Some (Num 74)\<rparr>] \<and>
   ((matchScore ((toEvent flatDistance origin0 node_jazz)\<lparr>matchScore := Some (Num 74)\<rparr>) \<noteq> None) =
      truthy (Some (js ''jazz'')))"
proof -
  have run: "fst (findNearbyEvents flatDistance (feedOf [node_jazz])
          (answers [okReply (js ''Good fit: {74}'')]) origin0 (Some (js ''jazz'')) world0) =
     Inr [(toEvent flatDistance origin0 node_jazz)\<lparr>matchScore := Some (Num 74)\<rparr>]"
    by code_simp
  from matchScore_iff_interests [OF run] run show ?thesis by simp
qed

subsection \<open>C5: no interests, no reordering\<close>

text \<open>
  C5. When interests is absent or empty and the feed answers with success, the result
  is the list of enriched events in the order of the feed's nodes; no scoring request
  is sent.
\<close>

theorem no_interests_passthrough:
  assumes "ok (feed (feedRequests w))" and "\<not> truthy interests"
  shows "findNearbyEvents calculateDistance feed completion origin interests w =
     (Inr (map (toEvent calculateDistance origin) (edges (json (feed (feedRequests w))))),
      w\<lparr>feedRequests := Suc (feedRequests w)\<rparr>)"
  using assms by (rule findNearbyEvents_plain)

theorem no_interests_passthrough_witness:
  "ok (feedOf [node_jazz, node_chess] (feedRequests world0)) \<and> \<not> truthy (Some []) \<and>
   findNearbyEvents flatDistance (feedOf [node_jazz, node_chess]) (answers []) origin0 (Some []) world0 =
     (Inr [toEvent flatDistance origin0 node_jazz, toEvent flatDistance origin0 node_chess],
      \<lparr>feedRequests = 1, scoringRequests = 0\<rparr>)"
proof -
  have h1: "ok (feedOf [node_jazz, node_chess] (feedRequests world0))"
    by (simp add: feedOf_def)
  have h2: "\<not> truthy (Some [])" by simp
  from no_interests_passthrough
         [where feed = "feedOf [node_jazz, node_chess]" and w = world0 and interests = "Some []"
            and calculateDistance = flatDistance and completion = "answers []" and origin = origin0,
          OF h1 h2] h1 h2
  show ?thesis by (simp add: feedOf_def world0_def)
qed

subsection \<open>C6: location and distance\<close>

text \<open>
  C6. For every returned event, \<open>location\<close> is defined if and only if \<open>distance\<close> is:
  the event stems from a node of the feed, and with a venue both are set (the distance
  by the calculator, from the origin to the venue), without a venue both are unset.
\<close>

theorem location_iff_distance:
  assumes "fst (findNearbyEvents calculateDistance feed completion origin interests w) = Inr evs"
    and "e \<in> set evs"
  shows "((location e \<noteq> None) = (distance e \<noteq> None)) \<and>
         (\<exists>node\<in>set (edges (json (feed (feedRequests w)))).
            (case venue node of
               None \<Rightarrow> location e = None \<and> distance e = None
             | Some v \<Rightarrow>
                 location e = Some \<lparr>latitude = lat v, longitude = lon v\<rparr> \<and>
                 distance e = Some (calculateDistance origin \<lparr>latitude = lat v, longitude = lon v\<rparr>)))"
proof -
  have "\<exists>node\<in>set (edges (json (feed (feedRequests w)))).
          location e = location (toEvent calculateDistance origin node) \<and>
          distance e = distance (toEvent calculateDistance origin node)"
    using assms(1)
  proof (cases rule: findNearbyEvents_Inr)
    case plain
    with assms(2) show ?thesis by auto
  next
    case (ranked s scored)
    with assms(2) have "e \<in> set scored" by (simp add: set_sortBy_compareScore)
    from scoreEvents_set [OF ranked(3) this] show ?thesis by auto
  qed
  then obtain node where node: "node \<in> set (edges (json (feed (feedRequests w))))"
    and l: "location e = location (toEvent calculateDistance origin node)"
    and d: "distance e = distance (toEvent calculateDistance origin node)"
    by auto
  have c: "case venue node of
               None \<Rightarrow> location e = None \<and> distance e = None
             | Some v \<Rightarrow>
                 location e = Some \<lparr>latitude = lat v, longitude = lon v\<rparr> \<and>
                 distance e = Some (calculateDistance origin \<lparr>latitude = lat v, longitude = lon v\<rparr>)"
    using l d toEvent_no_venue [of node calculateDistance origin] toEvent_venue [of node _ calculateDistance origin]
    by (cases "venue node") auto
  then have "(location e \<noteq> None) = (distance e \<noteq> None)"
    by (cases "venue node") auto
  with node c show ?thesis by blast
qed

theorem location_iff_distance_witness:
  "fst (findNearbyEvents flatDistance (feedOf [node_jazz, node_chess]) (answers []) origin0 None world0) =
     Inr [toEvent flatDistance origin0 node_jazz, toEvent flatDistance origin0 node_chess] \<and>
   ((location (toEvent flatDistance origin0 node_jazz) \<noteq> None) =
    (distance (toEvent flatDistance origin0 node_jazz) \<noteq> None)) \<and>
   ((location (toEvent flatDistance origin0 node_chess) \<noteq> None) =
    (distance (toEvent flatDistance origin0 node_chess) \<noteq> None))"
proof -
  have run: "fst (findNearbyEvents flatDistance (feedOf [node_jazz, node_chess]) (answers []) origin0
                None world0) =
     Inr [toEvent flatDistance origin0 node_jazz, toEvent flatDistance origin0 node_chess]"
    by code_simp
  have j: "toEvent flatDistance origin0 node_jazz \<in>
             set [toEvent flatDistance origin0 node_jazz, toEvent flatDistance origin0 node_chess]"
    and c: "toEvent flatDistance origin0 node_chess \<in>
             set [toEvent flatDistance origin0 node_jazz, toEvent flatDistance origin0 node_chess]"
    by simp_all
  from location_iff_distance [OF run j] location_iff_distance [OF run c] run
  show ?thesis by blast
qed

subsection \<open>C7: failure of the feed\<close>

text \<open>
  C7. When the feed answers with a non-success status, \<open>findNearbyEvents\<close> fails with
  the error \<open>Meetup API error: \<close> followed by the status text; it has sent that one
  request to the feed and none to the completion provider, and returns no events.
\<close>

theorem feed_failure_fails_call:
  assumes "\<not> ok (feed (feedRequests w))"
  shows "findNearbyEvents calculateDistance feed completion origin interests w =
     (Inl (Error (js ''Meetup API error: '' @ statusText (feed (feedRequests w)))),
      w\<lparr>feedRequests := Suc (feedRequests w)\<rparr>)"
  using assms by (rule findNearbyEvents_not_ok)

theorem feed_failure_fails_call_witness:
  "\<not> ok (feedDown (feedRequests world0)) \<and>
   findNearbyEvents flatDistance feedDown (answers []) origin0 (Some (js ''jazz'')) world0 =
     (Inl (Error (js ''Meetup API error: Internal Server Error'')),
      \<lparr>feedRequests = 1, scoringRequests = 0\<rparr>)"
proof -
  have h: "\<not> ok (feedDown (feedRequests world0))" by (simp add: feedDown_def)
  from feed_failure_fails_call
         [where feed = feedDown and w = world0 and calculateDistance = flatDistance
            and completion = "answers []" and origin = origin0 and interests = "Some (js ''jazz'')",
          OF h] h
  show ?thesis by (simp add: feedDown_def world0_def js_def)
qed

subsection \<open>C8: failure of a scoring request\<close>

text \<open>
  C8, in the form the code satisfies. If a scoring request of the batch receives a non-success response,
  the whole call fails and returns no events; and whenever every successful response of
  the provider contains a choice, the error is \<open>OpenRouter API error: \<close> followed by
  the status text of a request of the batch that received a non-success response.
\<close>

theorem scoring_failure_fails_call:
  assumes "ok (feed (feedRequests w))" and "s \<noteq> []"
    and "j < length (edges (json (feed (feedRequests w))))"
    and "\<not> ok (completion (scoringRequests w + j)
                (promptOf s (toEvent calculateDistance origin (edges (json (feed (feedRequests w))) ! j))))"
  shows "(\<exists>e. fst (findNearbyEvents calculateDistance feed completion origin (Some s) w) = Inl e) \<and>
         ((\<forall>k p. ok (completion k p) \<longrightarrow> choices (json (completion k p)) \<noteq> []) \<longrightarrow>
          (\<exists>i<length (edges (json (feed (feedRequests w)))).
             \<not> ok (completion (scoringRequests w + i)
                    (promptOf s (toEvent calculateDistance origin (edges (json (feed (feedRequests w))) ! i)))) \<and>
             fst (findNearbyEvents calculateDistance feed completion origin (Some s) w) =
               Inl (Error (js ''OpenRouter API error: '' @
                 statusText (completion (scoringRequests w + i)
                    (promptOf s (toEvent calculateDistance origin (edges (json (feed (feedRequests w))) ! i))))))))"
proof -
  let ?nodes = "edges (json (feed (feedRequests w)))"
  let ?events = "map (toEvent calculateDistance origin) ?nodes"
  let ?w1 = "w\<lparr>feedRequests := Suc (feedRequests w)\<rparr>"
  have j': "j < length ?events" using assms(3) by simp
  have "\<not> ok (completion (scoringRequests ?w1 + j) (promptOf s (?events ! j)))"
    using assms(3,4) by simp
  from scoreEvents_fails
         [where events = ?events and w = ?w1 and completion = completion and interests = s,
          OF j' this]
  obtain e where
    e: "fst (scoreEvents completion s ?events ?w1) = Inl e" ..
  then have res: "fst (findNearbyEvents calculateDistance feed completion origin (Some s) w) = Inl e"
    using assms(1,2) by (simp add: findNearbyEvents_scored)
  have "\<exists>i<length ?nodes.
             \<not> ok (completion (scoringRequests w + i) (promptOf s (toEvent calculateDistance origin (?nodes ! i)))) \<and>
             e = Error (js ''OpenRouter API error: '' @
                 statusText (completion (scoringRequests w + i)
                    (promptOf s (toEvent calculateDistance origin (?nodes ! i)))))"
    if wf: "\<forall>k p. ok (completion k p) \<longrightarrow> choices (json (completion k p)) \<noteq> []"
  proof -
    from scoreEvents_Inl [OF e] obtain i where i: "i < length ?events" and
      d: "(\<not> ok (completion (scoringRequests ?w1 + i) (promptOf s (?events ! i))) \<and>
            e = Error (js ''OpenRouter API error: '' @
                    statusText (completion (scoringRequests ?w1 + i) (promptOf s (?events ! i))))) \<or>
           (ok (completion (scoringRequests ?w1 + i) (promptOf s (?events ! i))) \<and>
            choices (json (completion (scoringRequests ?w1 + i) (promptOf s (?events ! i)))) = [] \<and>
            e = TypeError)"
      by blast
    from d wf have "\<not> ok (completion (scoringRequests ?w1 + i) (promptOf s (?events ! i))) \<and>
            e = Error (js ''OpenRouter API error: '' @
                    statusText (completion (scoringRequests ?w1 + i) (promptOf s (?events ! i))))"
      by blast
    with i show ?thesis by (intro exI [of _ i]) simp
  qed
  with res show ?thesis by auto
qed

text \<open>The hypotheses hold for a batch of two whose second request is refused.\<close>

theorem scoring_failure_fails_call_witness:
  "\<not> ok (failedReply (js ''Too Many Requests'')) \<and>
   fst (findNearbyEvents flatDistance (feedOf [node_jazz, node_chess])
          (answers [okReply (js ''{85}''), failedReply (js ''Too Many Requests'')]) origin0
          (Some (js ''jazz'')) world0) =
     Inl (Error (js ''OpenRouter API error: Too Many Requests''))"
proof -
  let ?feed = "feedOf [node_jazz, node_chess]"
  let ?completion = "answers [okReply (js ''{85}''), failedReply (js ''Too Many Requests'')]
                       :: nat \<Rightarrow> int prompt \<Rightarrow> OpenRouterResponse response"
  have h1: "ok (?feed (feedRequests world0))" by (simp add: feedOf_def)
  have h2: "js ''jazz'' \<noteq> []" by (simp add: js_def)
  have h3: "1 < length (edges (json (?feed (feedRequests world0))))" by (simp add: feedOf_def)
  have h4: "\<not> ok (?completion (scoringRequests world0 + 1)
                (promptOf (js ''jazz'') (toEvent flatDistance origin0
                   (edges (json (?feed (feedRequests world0))) ! 1))))"
    by (simp add: answers_def failedReply_def world0_def)
  have wf: "\<forall>k p. ok (?completion k p) \<longrightarrow> choices (json (?completion k p)) \<noteq> []"
    by (auto simp: answers_def okReply_def failedReply_def nth_Cons split: nat.splits)
  have run: "fst (findNearbyEvents flatDistance ?feed ?completion origin0 (Some (js ''jazz'')) world0) =
     Inl (Error (js ''OpenRouter API error: Too Many Requests''))"
    by code_simp
  from scoring_failure_fails_call
         [where feed = ?feed and w = world0 and s = "js ''jazz''" and j = 1
            and completion = ?completion and calculateDistance = flatDistance and origin = origin0,
          OF h1 h2 h3 h4] wf run
  show ?thesis by (simp add: failedReply_def)
qed

text \<open>
  C8 as stated fails: when the first request is answered with success but without a
  choice and the second is refused, the call fails with the \<open>TypeError\<close> of the first,
  which carries no status text.
\<close>

theorem scoring_failure_counterexample:
  "\<not> ok (failedReply (js ''Internal Server Error'')) \<and>
   fst (findNearbyEvents flatDistance (feedOf [node_jazz, node_chess])
          (answers [noChoiceReply, failedReply (js ''Internal Server Error'')]) origin0
          (Some (js ''jazz'')) world0) = Inl TypeError"
  by code_simp

subsection \<open>C9: maxTickets\<close>

text \<open>
  C9. The mapping of a node leaves \<open>maxTickets\<close> absent when the feed reports \<open>null\<close> or
  \<open>0\<close>, and copies the feed's value when it is a positive integer.
\<close>

theorem maxTickets_zero_is_absent:
  "(maxTickets_n node = None \<or> maxTickets_n node = Some 0 \<longrightarrow>
      maxTickets (toEvent calculateDistance origin node) = None) \<and>
   (\<forall>n. 0 < n \<longrightarrow> maxTickets_n node = Some n \<longrightarrow>
      maxTickets (toEvent calculateDistance origin node) = Some n)"
  by (auto simp: toEvent_def Let_def split: option.splits)

theorem maxTickets_zero_is_absent_witness:
  "maxTickets_n node_chess = Some 0 \<and>
   maxTickets (toEvent flatDistance origin0 node_chess) = None \<and>
   maxTickets_n node_jazz = Some 50 \<and>
   maxTickets (toEvent flatDistance origin0 node_jazz) = Some 50"
proof -
  have c: "maxTickets_n node_chess = Some 0" and j: "maxTickets_n node_jazz = Some 50"
    by (simp_all add: node_chess_def node_jazz_def)
  from maxTickets_zero_is_absent [of node_chess flatDistance origin0] c
  have "maxTickets (toEvent flatDistance origin0 node_chess) = None" by simp
  moreover from maxTickets_zero_is_absent [of node_jazz flatDistance origin0] j
  have "maxTickets (toEvent flatDistance origin0 node_jazz) = Some 50" by simp
  ultimately show ?thesis using c j by simp
qed

subsection \<open>C10: scoring changes nothing but the score\<close>

text \<open>
  C10. When the scoring step succeeds, it returns as many events as it was given, and
  the \<open>i\<close>-th scored event agrees with the \<open>i\<close>-th given event on name, description,
  datetime, maxTickets, eventType, rsvpCount, eventLink, location and distance.
\<close>

theorem scoring_changes_only_matchScore:
  assumes "fst (scoreEvents completion interests events w) = Inr scored"
  shows "length scored = length events \<and>
         (\<forall>i<length events.
            name (scored ! i) = name (events ! i) \<and>
            description (scored ! i) = description (events ! i) \<and>
            datetime (scored ! i) = datetime (events ! i) \<and>
            maxTickets (scored ! i) = maxTickets (events ! i) \<and>
            eventType (scored ! i) = eventType (events ! i) \<and>
            rsvpCount (scored ! i) = rsvpCount (events ! i) \<and>
            eventLink (scored ! i) = eventLink (events ! i) \<and>
            location (scored ! i) = location (events ! i) \<and>
            distance (scored ! i) = distance (events ! i))"
proof -
  from scoreEvents_Inr [OF assms]
  have len: "length scored = length events"
    and nth: "\<And>i. i < length events \<Longrightarrow> \<exists>x. scored ! i = (events ! i)\<lparr>matchScore := x\<rparr>"
    by (auto simp: list_all2_conv_all_nth)
  show ?thesis
  proof (intro conjI allI impI)
    fix i assume "i < length events"
    from nth [OF this] obtain x where x: "scored ! i = (events ! i)\<lparr>matchScore := x\<rparr>" ..
    show "name (scored ! i) = name (events ! i)" by (simp add: x)
    show "description (scored ! i) = description (events ! i)" by (simp add: x)
    show "datetime (scored ! i) = datetime (events ! i)" by (simp add: x)
    show "maxTickets (scored ! i) = maxTickets (events ! i)" by (simp add: x)
    show "eventType (scored ! i) = eventType (events ! i)" by (simp add: x)
    show "rsvpCount (scored ! i) = rsvpCount (events ! i)" by (simp add: x)
    show "eventLink (scored ! i) = eventLink (events ! i)" by (simp add: x)
    show "location (scored ! i) = location (events ! i)" by (simp add: x)
    show "distance (scored ! i) = distance (events ! i)" by (simp add: x)
  qed (rule len)
qed

theorem scoring_changes_only_matchScore_witness:
  "fst (scoreEvents (answers [okReply (js ''{85}''), okReply (js ''{40}'')]) (js ''jazz'')
          [toEvent flatDistance origin0 node_jazz, toEvent flatDistance origin0 node_chess] world0) =
     Inr [(toEvent flatDistance origin0 node_jazz)\<lparr>matchScore := Some (Num 85)\<rparr>,
          (toEvent flatDistance origin0 node_chess)\<lparr>matchScore := Some (Num 40)\<rparr>] \<and>
   name ((toEvent flatDistance origin0 node_chess)\<lparr>matchScore := Some (Num 40)\<rparr>) = js ''Chess club'' \<and>
   rsvpCount ((toEvent flatDistance origin0 node_jazz)\<lparr>matchScore := Some (Num 85)\<rparr>) = 12 \<and>
   distance ((toEvent flatDistance origin0 node_jazz)\<lparr>matchScore := Some (Num 85)\<rparr>) = Some 2"
proof -
  let ?events = "[toEvent flatDistance origin0 node_jazz, toEvent flatDistance origin0 node_chess]"
  let ?scored = "[(toEvent flatDistance origin0 node_jazz)\<lparr>matchScore := Some (Num 85)\<rparr>,
          (toEvent flatDistance origin0 node_chess)\<lparr>matchScore := Some (Num 40)\<rparr>]"
  have run: "fst (scoreEvents (answers [okReply (js ''{85}''), okReply (js ''{40}'')]) (js ''jazz'')
          ?events world0) = Inr ?scored"
    by code_simp
  have orig: "name (?events ! 1) = js ''Chess club''" "rsvpCount (?events ! 0) = 12"
    "distance (?events ! 0) = Some 2"
    by code_simp+
  from scoring_changes_only_matchScore [OF run]
  have "name (?scored ! 1) = name (?events ! 1)" "rsvpCount (?scored ! 0) = rsvpCount (?events ! 0)"
    "distance (?scored ! 0) = distance (?events ! 0)"
    by simp_all
  with orig run show ?thesis by simp
qed

end
